theory Spec2Isabelle
  imports Main "HOL-Library.Sublist" "HOL-Library.AList"
begin

section \<open>Text primitives of the Python source\<close>

text \<open>
  The program is \<^verbatim>\<open>src/main.py\<close>. In this section and in the model of \<^verbatim>\<open>get_file\<close> and \<^verbatim>\<open>run\<close>,
  Python's \<^verbatim>\<open>str\<close> is a \<^typ>\<open>string\<close> read as ASCII code points: \<open>lower\<close> maps \<open>A\<close>..\<open>Z\<close> to
  \<open>a\<close>..\<open>z\<close>, and the whitespace class of \<^verbatim>\<open>str.strip()\<close> and of the regular expression
  \<^verbatim>\<open>\s\<close> is the ASCII part of Python's: tab, line feed, vertical tab, form feed, carriage
  return, the four separators 0x1C..0x1F and the space. Characters above 0x7F are carried
  unchanged, which is not what Python does with them; the sanitizer is therefore modelled
  a second time over all code points, with the Unicode tables as parameters, in the
  section on Unicode text below.
\<close>

definition isupper :: "char \<Rightarrow> bool" where
  "isupper c = (of_char CHR ''A'' \<le> (of_char c :: nat) \<and> (of_char c :: nat) \<le> of_char CHR ''Z'')"

definition lower_char :: "char \<Rightarrow> char" where
  "lower_char c = (if isupper c then char_of (of_char c + (32::nat)) else c)"

definition lower :: "string \<Rightarrow> string" where
  "lower s = map lower_char s"

definition isspace :: "char \<Rightarrow> bool" where
  "isspace c = (c \<in> set [CHR 0x09, CHR 0x0A, CHR 0x0B, CHR 0x0C, CHR 0x0D,
                          CHR 0x1C, CHR 0x1D, CHR 0x1E, CHR 0x1F, CHR '' ''])"

definition lstrip :: "string \<Rightarrow> string" where
  "lstrip s = dropWhile isspace s"

definition rstrip :: "string \<Rightarrow> string" where
  "rstrip s = rev (dropWhile isspace (rev s))"

definition strip :: "string \<Rightarrow> string" where
  "strip s = rstrip (lstrip s)"

text \<open>\<^verbatim>\<open>re.sub(r'\s+', '_', text)\<close>: every maximal run of whitespace becomes one underscore.\<close>

function sub_ws :: "string \<Rightarrow> string" where
  "sub_ws [] = []"
| "sub_ws (c # cs) =
     (if isspace c then CHR ''_'' # sub_ws (dropWhile isspace cs) else c # sub_ws cs)"
  by pat_completeness auto
termination
  by (relation "measure length") (auto simp: length_dropWhile_le less_Suc_eq_le)

text \<open>The character class \<^verbatim>\<open>[\\/*?:"<>|]\<close>: backslash, slash, star, question mark, colon,
  double quote, less, greater, bar.\<close>

definition illegal :: "char list" where
  "illegal = [CHR 0x5C, CHR ''/'', CHR ''*'', CHR ''?'', CHR '':'', CHR 0x22,
              CHR ''<'', CHR ''>'', CHR ''|'']"

definition sub_illegal :: "string \<Rightarrow> string" where
  "sub_illegal s = filter (\<lambda>c. c \<notin> set illegal) s"

text \<open>\<^verbatim>\<open>ResourceDownloader._clean_name\<close> (lines 67-70).\<close>

definition clean_name :: "string \<Rightarrow> string" where
  "clean_name text = sub_illegal (sub_ws (strip (lower text)))"

text \<open>
  \<^verbatim>\<open>re.sub(r'(File|URL|Folder)$', '', display_name)\<close> (line 82). Without the MULTILINE
  flag, \<^verbatim>\<open>$\<close> matches at the end of the string and also just before a line feed that is
  the last character; in the second case the line feed stays.
\<close>

definition kind_suffixes :: "string list" where
  "kind_suffixes = [''File'', ''URL'', ''Folder'']"

fun drop_kind :: "string list \<Rightarrow> string \<Rightarrow> string option" where
  "drop_kind [] s = None"
| "drop_kind (k # ks) s =
     (if suffix k s then Some (take (length s - length k) s) else drop_kind ks s)"

definition sub_kind :: "string \<Rightarrow> string" where
  "sub_kind s =
     (case drop_kind kind_suffixes s of
        Some r \<Rightarrow> r
      | None \<Rightarrow>
          (if s \<noteq> [] \<and> last s = CHR 0x0A then
             (case drop_kind kind_suffixes (butlast s) of
                Some r \<Rightarrow> r @ [CHR 0x0A]
              | None \<Rightarrow> s)
           else s))"

text \<open>The table \<^verbatim>\<open>ext_map\<close> (lines 85-95) and the list of line 98.\<close>

definition ext_map :: "(string \<times> string) list" where
  "ext_map =
    [(''application/pdf'', ''.pdf''),
     (''application/vnd.openxmlformats-officedocument.wordprocessingml.document'', ''.docx''),
     (''application/msword'', ''.doc''),
     (''application/vnd.openxmlformats-officedocument.presentationml.presentation'', ''.pptx''),
     (''application/vnd.ms-powerpoint'', ''.ppt''),
     (''application/vnd.openxmlformats-officedocument.spreadsheetml.sheet'', ''.xlsx''),
     (''application/vnd.ms-excel'', ''.xls''),
     (''text/plain'', ''.txt''),
     (''application/zip'', ''.zip'')]"

definition known_endings :: "string list" where
  "known_endings = [''.pdf'', ''.docx'', ''.doc'', ''.pptx'', ''.ppt'', ''.xlsx'', ''.xls'', ''.zip'']"

definition extension_of :: "string \<Rightarrow> string" where
  "extension_of ctype = (case map_of ext_map ctype of Some e \<Rightarrow> e | None \<Rightarrow> [])"

definition base_name_of :: "string \<Rightarrow> string" where
  "base_name_of display_name = clean_name (strip (sub_kind display_name))"

text \<open>Lines 82-101 of \<^verbatim>\<open>get_file\<close>: the name under which a response is stored; \<open>ctype\<close>
  is the lower-cased content type.\<close>

definition filename_of :: "string \<Rightarrow> string \<Rightarrow> string" where
  "filename_of ctype display_name =
     (let base_name = base_name_of display_name;
          extension = extension_of ctype
      in if list_ex (\<lambda>e. suffix e base_name) known_endings then base_name
         else base_name @ extension)"

section \<open>The environment: network, disk, and the libraries\<close>

text \<open>
  Everything the program reaches outside itself is explicit. The remote side and the
  libraries are parameters, collected in \<open>env\<close>; they do not change during a run or
  between runs, which is what "unchanged remote state" means below.
  \<^item> \<open>remote\<close>: what \<^verbatim>\<open>session.get\<close> returns for a URL; \<open>None\<close> when the call raises.
  \<^item> \<open>denied\<close>: the paths at which creating the directories or opening the file for
    writing raises (a directory in the way, no permission, a path ending in a
    separator). It is fixed for a run: a refusal that is caused by what the same run
    wrote earlier (a download stored where a later section folder is to be created) is
    not represented.
  \<^item> \<open>json_load\<close>, \<open>json_dump\<close>: the \<^verbatim>\<open>json\<close> module on the history file; \<open>json_load\<close>
    is \<open>None\<close> when \<^verbatim>\<open>json.load\<close> raises. The history is a dictionary from strings to
    strings, kept as an association list in insertion order, as a Python \<^verbatim>\<open>dict\<close> is;
    this is what \<^verbatim>\<open>_save_history\<close> writes. A history file holding valid JSON of another
    shape (a list, a number, values that are not strings) is outside the model.
  \<^item> \<open>get_text\<close>: \<^verbatim>\<open>BeautifulSoup(s, 'lxml').get_text(strip=True)\<close>.
  The mutable part is the \<open>world\<close>: the files on disk, the URLs requested so far by
  \<^verbatim>\<open>get_file\<close>, and the status lines it has written.
\<close>

type_synonym history = "(string \<times> string) list"

record response =
  content_type :: "string option"
  body :: string

record env =
  remote :: "string \<Rightarrow> response option"
  denied :: "string \<Rightarrow> bool"
  json_load :: "string \<Rightarrow> history option"
  json_dump :: "history \<Rightarrow> string"
  get_text :: "string \<Rightarrow> string"

datatype event = EXIST string | NEW string | ERR string

record world =
  files :: "string \<rightharpoonup> string"
  requests :: "string list"
  out :: "event list"

definition tqdm_write :: "event \<Rightarrow> world \<Rightarrow> world" where
  "tqdm_write e w = w\<lparr>out := out w @ [e]\<rparr>"

text \<open>\<^verbatim>\<open>os.path.join\<close> of two components and \<^verbatim>\<open>os.sep\<close>, as in \<^verbatim>\<open>posixpath\<close>.\<close>

definition os_sep :: char where
  "os_sep = CHR ''/''"

definition os_path_join :: "string \<Rightarrow> string \<Rightarrow> string" where
  "os_path_join a b =
     (if prefix [os_sep] b then b
      else if a = [] \<or> suffix [os_sep] a then a @ b
      else a @ [os_sep] @ b)"

definition replace_sep :: "string \<Rightarrow> string" where
  "replace_sep s = map (\<lambda>c. if c = os_sep then CHR ''/'' else c) s"

section \<open>ResourceDownloader\<close>

record downloader =
  subject_path :: string
  history :: history

definition index_file :: string where
  "index_file = os_path_join ''Second Semester'' ''downloaded_index.json''"

text \<open>\<^verbatim>\<open>_load_history\<close> (lines 53-60).\<close>

definition load_history :: "env \<Rightarrow> world \<Rightarrow> history" where
  "load_history E w =
     (case files w index_file of
        Some text \<Rightarrow> (case json_load E text of Some h \<Rightarrow> h | None \<Rightarrow> [])
      | None \<Rightarrow> [])"

text \<open>\<^verbatim>\<open>_save_history\<close> (lines 62-65); \<open>None\<close> when it raises.\<close>

definition save_history :: "env \<Rightarrow> downloader \<Rightarrow> world \<Rightarrow> world option" where
  "save_history E d w =
     (if denied E index_file then None
      else Some (w\<lparr>files := (files w)(index_file \<mapsto> json_dump E (history d))\<rparr>))"

definition downloader_init :: "env \<Rightarrow> string \<Rightarrow> world \<Rightarrow> downloader" where
  "downloader_init E subject_dir w = \<lparr>subject_path = subject_dir, history = load_history E w\<rparr>"

definition target_url_of :: "string \<Rightarrow> string" where
  "target_url_of url = url @ (if CHR ''?'' \<in> set url then ''&'' else ''?'') @ ''redirect=1''"

definition ctype_of :: "response \<Rightarrow> string" where
  "ctype_of resp = lower (case content_type resp of Some c \<Rightarrow> c | None \<Rightarrow> [])"

text \<open>
  \<^verbatim>\<open>get_file\<close> (lines 72-115). The result is the returned value (\<open>None\<close> for Python's
  \<^verbatim>\<open>None\<close>), the downloader and the world after the call. Line 109 changes the history
  in memory before line 110 saves it, so a save that raises leaves the entry in memory.
\<close>

definition get_file ::
  "env \<Rightarrow> downloader \<Rightarrow> world \<Rightarrow> string \<Rightarrow> string \<Rightarrow> string \<Rightarrow> string option \<times> downloader \<times> world"
where
  "get_file E d w url folder_name display_name =
     (if url \<in> fst ` set (history d) then
        (map_of (history d) url, d, tqdm_write (EXIST display_name) w)
      else
        let w1 = w\<lparr>requests := requests w @ [target_url_of url]\<rparr> in
        case remote E (target_url_of url) of
          None \<Rightarrow> (None, d, tqdm_write (ERR display_name) w1)
        | Some resp \<Rightarrow>
            let ctype = ctype_of resp in
            if sublist ''text/html'' ctype then (None, d, w1)
            else
              let filename = filename_of ctype display_name;
                  rel_path = os_path_join folder_name filename;
                  full_path = os_path_join (subject_path d) rel_path
              in
              if denied E full_path then (None, d, tqdm_write (ERR display_name) w1)
              else
                let w2 = w1\<lparr>files := (files w1)(full_path \<mapsto> body resp)\<rparr>;
                    d' = d\<lparr>history := AList.update url rel_path (history d)\<rparr>
                in
                case save_history E d' w2 of
                  None \<Rightarrow> (None, d', tqdm_write (ERR display_name) w2)
                | Some w3 \<Rightarrow> (Some rel_path, d', tqdm_write (NEW filename) w3))"

section \<open>CourseManager\<close>

text \<open>
  The course state is the JSON document of \<^verbatim>\<open>core_courseformat_get_state\<close>, already
  decoded: the list \<^verbatim>\<open>cm\<close> of module records and the list \<^verbatim>\<open>section\<close>. Identifiers are
  the strings \<^verbatim>\<open>str(id)\<close>. A key read with \<^verbatim>\<open>.get\<close> may be absent (\<open>None\<close>).
\<close>

record cm_item =
  item_id :: string
  item_name :: string
  item_module :: string
  item_url :: "string option"

record sec =
  sec_title :: "string option"
  sec_name :: "string option"
  sec_summary :: "string option"
  sec_cmlist :: "string list"

record course_state =
  state_cm :: "cm_item list"
  state_section :: "sec list"

datatype error = KeyError | OSError

datatype landing = SessionExpired | CoursePage string course_state

record course_manager =
  clean_subject :: string
  subject_dir :: string
  course_url :: string
  the_downloader :: downloader
  notes_dir :: string

definition semester_dir :: string where
  "semester_dir = ''Second Semester''"

text \<open>\<^verbatim>\<open>CourseManager.__init__\<close> (lines 119-126).\<close>

definition course_manager_init :: "env \<Rightarrow> string \<Rightarrow> string \<Rightarrow> world \<Rightarrow> course_manager" where
  "course_manager_init E url subject_name w =
     (let cs = sub_ws (strip (lower subject_name));
          sd = os_path_join semester_dir cs
      in \<lparr>clean_subject = cs, subject_dir = sd, course_url = url,
          the_downloader = downloader_init E sd w,
          notes_dir = os_path_join sd ''class_notes''\<rparr>)"

text \<open>The dictionary comprehension of line 140: a later record with the same id wins.\<close>

definition cm_map_of :: "cm_item list \<Rightarrow> (string \<times> cm_item) list" where
  "cm_map_of items = foldl (\<lambda>m item. AList.update (item_id item) item m) [] items"

text \<open>\<^verbatim>\<open>a or b\<close> on an optional string: \<open>None\<close> and the empty string are false.\<close>

definition truthy :: "string option \<Rightarrow> bool" where
  "truthy x = (case x of Some s \<Rightarrow> s \<noteq> [] | None \<Rightarrow> False)"

definition raw_name_of :: "sec \<Rightarrow> string" where
  "raw_name_of s =
     (case sec_title s of
        Some t \<Rightarrow> if t \<noteq> [] then t
                  else (case sec_name s of Some n \<Rightarrow> if n \<noteq> [] then n else ''General''
                        | None \<Rightarrow> ''General'')
      | None \<Rightarrow> (case sec_name s of Some n \<Rightarrow> if n \<noteq> [] then n else ''General''
                 | None \<Rightarrow> ''General''))"

type_synonym sync_state = "downloader \<times> world \<times> string list"

text \<open>The body of the inner loop (lines 165-175), for one module id of a section.\<close>

definition visit_cm ::
  "env \<Rightarrow> (string \<times> cm_item) list \<Rightarrow> string \<Rightarrow> sync_state \<Rightarrow> string \<Rightarrow> error + sync_state"
where
  "visit_cm E cm_map folder_name st cm_id =
     (case st of (d, w, readme_content) \<Rightarrow>
        (case map_of cm_map cm_id of
           None \<Rightarrow> Inr st
         | Some item \<Rightarrow>
             let clean_title = get_text E (item_name item) in
             if item_module item = ''resource'' then
               (case item_url item of
                  None \<Rightarrow> Inl KeyError
                | Some url \<Rightarrow>
                    (case get_file E d w url folder_name (item_name item) of
                       (Some local_rel, d', w') \<Rightarrow>
                         if local_rel \<noteq> [] then
                           Inr (d', w', readme_content @
                                  [''* [['' @ replace_sep local_rel @ ''|'' @ clean_title @ '']]''])
                         else Inr (d', w', readme_content)
                     | (None, d', w') \<Rightarrow> Inr (d', w', readme_content)))
             else
               Inr (d, w, readme_content @
                      [''* ['' @ clean_title @ '']('' @
                       (case item_url item of Some u \<Rightarrow> u | None \<Rightarrow> ''#'') @ '')''])))"

fun cm_loop ::
  "env \<Rightarrow> (string \<times> cm_item) list \<Rightarrow> string \<Rightarrow> sync_state \<Rightarrow> string list \<Rightarrow> error + sync_state"
where
  "cm_loop E cm_map folder_name st [] = Inr st"
| "cm_loop E cm_map folder_name st (cm_id # rest) =
     (case visit_cm E cm_map folder_name st cm_id of
        Inl e \<Rightarrow> Inl e
      | Inr st' \<Rightarrow> cm_loop E cm_map folder_name st' rest)"

definition context_text :: "env \<Rightarrow> sec \<Rightarrow> string" where
  "context_text E s =
     ''SECTION: '' @ raw_name_of s @ [CHR 0x0A] @
     (if truthy (sec_summary s) then
        [CHR 0x0A] @ ''[SUMMARY]'' @ [CHR 0x0A] @
        get_text E (case sec_summary s of Some t \<Rightarrow> t | None \<Rightarrow> []) @ [CHR 0x0A]
      else [])"

text \<open>The body of the outer loop (lines 148-175), for one section.\<close>

definition visit_section ::
  "env \<Rightarrow> string \<Rightarrow> (string \<times> cm_item) list \<Rightarrow> sync_state \<Rightarrow> sec \<Rightarrow> error + sync_state"
where
  "visit_section E sdir cm_map st s =
     (case st of (d, w, readme_content) \<Rightarrow>
        let raw_name = raw_name_of s;
            folder_name = clean_name raw_name;
            folder_path = os_path_join sdir folder_name;
            context_path = os_path_join folder_path ''context.txt''
        in
        if denied E folder_path \<or> denied E context_path then Inl OSError
        else
          let w1 = w\<lparr>files := (files w)(context_path \<mapsto> context_text E s)\<rparr> in
          cm_loop E cm_map folder_name
            (d, w1, readme_content @ [[CHR 0x0A] @ ''## '' @ raw_name]) (sec_cmlist s))"

fun section_loop ::
  "env \<Rightarrow> string \<Rightarrow> (string \<times> cm_item) list \<Rightarrow> sync_state \<Rightarrow> sec list \<Rightarrow> error + sync_state"
where
  "section_loop E sdir cm_map st [] = Inr st"
| "section_loop E sdir cm_map st (s # rest) =
     (case visit_section E sdir cm_map st s of
        Inl e \<Rightarrow> Inl e
      | Inr st' \<Rightarrow> section_loop E sdir cm_map st' rest)"

text \<open>\<^verbatim>\<open>"\n".join(lines)\<close>.\<close>

fun join_lines :: "string list \<Rightarrow> string" where
  "join_lines [] = []"
| "join_lines [l] = l"
| "join_lines (l # ls) = l @ [CHR 0x0A] @ join_lines ls"

definition readme_head :: "string \<Rightarrow> string \<Rightarrow> string list" where
  "readme_head course_title url =
     [''# '' @ course_title,
      [CHR 0x0A] @ ''[Moodle Link]('' @ url @ '')'',
      ''[[class_notes/|Class Notes]]'' @ [CHR 0x0A],
      ''---'']"

definition readme_path :: "course_manager \<Rightarrow> string" where
  "readme_path m = os_path_join (subject_dir m) ''README.md''"

text \<open>
  \<^verbatim>\<open>CourseManager.run\<close> (lines 128-181). Lines 130-139 fetch the course page and decode it
  with \<^verbatim>\<open>re\<close>, \<^verbatim>\<open>bs4\<close> and \<^verbatim>\<open>json\<close>; their outcome is the argument \<open>page\<close>: either the login
  marker was found (line 131), or the title and the course state. \<open>Inl\<close> is an exception
  that leaves \<^verbatim>\<open>run\<close>: the \<^verbatim>\<open>KeyError\<close> of line 170 for a resource without \<^verbatim>\<open>url\<close>, or
  a refused write (lines 142, 153, 158, 179), none of which is caught. Console output
  of \<^verbatim>\<open>run\<close> itself (banner, section headers, "Nothing new.") is not recorded, and with
  it the two flags of lines 152 and 156 that only feed it.
\<close>

definition run :: "env \<Rightarrow> course_manager \<Rightarrow> landing \<Rightarrow> world \<Rightarrow> error + course_manager \<times> world" where
  "run E m page w =
     (case page of
        SessionExpired \<Rightarrow> Inr (m, w)
      | CoursePage course_title state \<Rightarrow>
          if denied E (notes_dir m) then Inl OSError
          else
            (case section_loop E (subject_dir m) (cm_map_of (state_cm state))
                    (the_downloader m, w, readme_head course_title (course_url m))
                    (state_section state) of
               Inl e \<Rightarrow> Inl e
             | Inr (d, w', readme_content) \<Rightarrow>
                 if denied E (readme_path m) then Inl OSError
                 else Inr (m\<lparr>the_downloader := d\<rparr>,
                           w'\<lparr>files := (files w')(readme_path m \<mapsto> join_lines readme_content)\<rparr>)))"

text \<open>One invocation of the program (lines 184-190): a fresh manager, then \<^verbatim>\<open>run\<close>.\<close>

definition main :: "env \<Rightarrow> string \<Rightarrow> string \<Rightarrow> landing \<Rightarrow> world \<Rightarrow> error + course_manager \<times> world" where
  "main E url subject_name page w = run E (course_manager_init E url subject_name w) page w"

section \<open>Notions used to state and prove the properties\<close>

text \<open>
  Running the program a second time starts from the world the first run left. The
  observation of an outcome keeps what the properties speak about: the history in
  memory, the URLs requested, the status lines, and the content of the index document.
\<close>

definition main_again ::
  "env \<Rightarrow> string \<Rightarrow> string \<Rightarrow> landing \<Rightarrow> error + course_manager \<times> world \<Rightarrow>
   error + course_manager \<times> world"
where
  "main_again E url subject_name page r =
     (case r of Inl e \<Rightarrow> Inl e | Inr (m, w) \<Rightarrow> main E url subject_name page w)"

definition observe ::
  "error + course_manager \<times> world \<Rightarrow> error + history \<times> string list \<times> event list \<times> string option"
where
  "observe r =
     (case r of
        Inl e \<Rightarrow> Inl e
      | Inr (m, w) \<Rightarrow> Inr (history (the_downloader m), requests w, out w, files w (readme_path m)))"




text \<open>
  The fetches of a walk, as pairs of URL and display name in visiting order: a module id
  leads to one when it names a resource record with a \<^verbatim>\<open>url\<close> (lines 165-171).
\<close>

definition cm_visit :: "(string \<times> cm_item) list \<Rightarrow> string \<Rightarrow> (string \<times> string) list" where
  "cm_visit cm_map cm_id =
     (case map_of cm_map cm_id of
        None \<Rightarrow> []
      | Some item \<Rightarrow>
          if item_module item = ''resource'' then
            (case item_url item of Some url \<Rightarrow> [(url, item_name item)] | None \<Rightarrow> [])
          else [])"







section \<open>An example environment\<close>

text \<open>
  A small instance of the parameters, for evaluating the program on concrete inputs:
  a \<^verbatim>\<open>json\<close> codec for flat objects of strings without escapes, in the layout that
  \<^verbatim>\<open>json.dump(..., indent=4)\<close> writes, a remote side that serves one PDF and one HTML
  page, and a disk that accepts every write.
\<close>

definition dq :: char where
  "dq = CHR 0x22"

definition nl :: char where
  "nl = CHR 0x0A"

fun ex_join :: "string \<Rightarrow> string list \<Rightarrow> string" where
  "ex_join sep [] = []"
| "ex_join sep [l] = l"
| "ex_join sep (l # ls) = l @ sep @ ex_join sep ls"

definition ex_json_entry :: "string \<times> string \<Rightarrow> string" where
  "ex_json_entry kv = ''    '' @ [dq] @ fst kv @ [dq] @ '': '' @ [dq] @ snd kv @ [dq]"

definition ex_json_dump :: "history \<Rightarrow> string" where
  "ex_json_dump h =
     (if h = [] then ''{}''
      else ''{'' @ [nl] @ ex_join ('','' @ [nl]) (map ex_json_entry h) @ [nl] @ ''}'')"

fun split_lines :: "string \<Rightarrow> string list" where
  "split_lines [] = [[]]"
| "split_lines (c # cs) =
     (if c = nl then [] # split_lines cs
      else (case split_lines cs of l # ls \<Rightarrow> (c # l) # ls | [] \<Rightarrow> [[c]]))"

fun split_sep :: "string \<Rightarrow> string \<Rightarrow> (string \<times> string) option" where
  "split_sep sep [] = None"
| "split_sep sep (c # cs) =
     (if prefix sep (c # cs) then Some ([], drop (length sep) (c # cs))
      else (case split_sep sep cs of Some (a, b) \<Rightarrow> Some (c # a, b) | None \<Rightarrow> None))"

definition ex_parse_entry :: "string \<Rightarrow> (string \<times> string) option" where
  "ex_parse_entry line =
     (let l = (if suffix '','' line then butlast line else line) in
      if prefix (''    '' @ [dq]) l \<and> suffix [dq] l \<and> 6 \<le> length l
      then split_sep ([dq] @ '': '' @ [dq]) (butlast (drop 5 l))
      else None)"

fun ex_parse_entries :: "string list \<Rightarrow> history option" where
  "ex_parse_entries [] = Some []"
| "ex_parse_entries (l # ls) =
     (case ex_parse_entry l of
        None \<Rightarrow> None
      | Some e \<Rightarrow> (case ex_parse_entries ls of None \<Rightarrow> None | Some es \<Rightarrow> Some (e # es)))"

definition ex_json_load :: "string \<Rightarrow> history option" where
  "ex_json_load s =
     (if s = ''{}'' then Some []
      else (case split_lines s of
              first # rest \<Rightarrow>
                if first = ''{'' \<and> rest \<noteq> [] \<and> last rest = ''}''
                then ex_parse_entries (butlast rest) else None
            | [] \<Rightarrow> None))"

definition ex_pdf_url :: string where
  "ex_pdf_url = ''https://moodle.example/mod/resource/view.php?id=7''"

definition ex_html_url :: string where
  "ex_html_url = ''https://moodle.example/mod/resource/view.php?id=8''"

definition ex_pdf_response :: response where
  "ex_pdf_response = \<lparr>content_type = Some ''application/pdf'', body = ''%PDF-1.7''\<rparr>"

definition ex_html_response :: response where
  "ex_html_response = \<lparr>content_type = Some ''text/html; charset=utf-8'', body = ''<html></html>''\<rparr>"

definition ex_remote :: "string \<Rightarrow> response option" where
  "ex_remote u =
     (if u = target_url_of ex_pdf_url then Some ex_pdf_response
      else if u = target_url_of ex_html_url then Some ex_html_response
      else None)"

definition ex_env :: env where
  "ex_env = \<lparr>remote = ex_remote, denied = (\<lambda>p. False), json_load = ex_json_load,
             json_dump = ex_json_dump, get_text = (\<lambda>s. s)\<rparr>"

definition ex_world :: world where
  "ex_world = \<lparr>files = Map.empty, requests = [], out = []\<rparr>"


definition ex_downloader :: downloader where
  "ex_downloader = \<lparr>subject_path = ''Second Semester/algebra'', history = []\<rparr>"

definition ex_cached_downloader :: downloader where
  "ex_cached_downloader =
     \<lparr>subject_path = ''Second Semester/algebra'',
      history = [(ex_pdf_url, ''week_1/lecture_notes.pdf'')]\<rparr>"

definition ex_forum :: cm_item where
  "ex_forum = \<lparr>item_id = ''9'', item_name = ''Course forum'', item_module = ''forum'',
               item_url = None\<rparr>"

definition ex_state :: course_state where
  "ex_state =
     \<lparr>state_cm =
        [\<lparr>item_id = ''7'', item_name = ''Lecture Notes File'', item_module = ''resource'',
          item_url = Some ex_pdf_url\<rparr>,
         \<lparr>item_id = ''8'', item_name = ''Quiz'', item_module = ''resource'',
          item_url = Some ex_html_url\<rparr>,
         ex_forum],
      state_section =
        [\<lparr>sec_title = Some ''Week 1'', sec_name = None, sec_summary = None,
          sec_cmlist = [''7'', ''8'', ''9'', ''404'']\<rparr>]\<rparr>"

text \<open>
  A second environment, in which opening a path that ends in the separator is refused
  (it names a directory), and a course in which two modules share one URL. The first
  module is named \<^verbatim>\<open>File\<close>: its base name is empty, the content type is not in the table,
  so the file name is empty and the path ends in the separator.
\<close>

definition ex_bin_url :: string where
  "ex_bin_url = ''https://moodle.example/mod/resource/view.php?id=10''"

definition ex_bin_response :: response where
  "ex_bin_response = \<lparr>content_type = Some ''application/octet-stream'', body = ''data''\<rparr>"

definition dir_env :: env where
  "dir_env =
     \<lparr>remote = (\<lambda>u. if u = target_url_of ex_bin_url then Some ex_bin_response else None),
      denied = (\<lambda>p. suffix [os_sep] p), json_load = ex_json_load,
      json_dump = ex_json_dump, get_text = (\<lambda>s. s)\<rparr>"

definition dup_state :: course_state where
  "dup_state =
     \<lparr>state_cm =
        [\<lparr>item_id = ''10'', item_name = ''File'', item_module = ''resource'',
          item_url = Some ex_bin_url\<rparr>,
         \<lparr>item_id = ''11'', item_name = ''Slides'', item_module = ''resource'',
          item_url = Some ex_bin_url\<rparr>],
      state_section =
        [\<lparr>sec_title = Some ''Week 1'', sec_name = None, sec_summary = None,
          sec_cmlist = [''10'', ''11'']\<rparr>]\<rparr>"


section \<open>The sanitizer over Unicode text\<close>

text \<open>
  \<^verbatim>\<open>_clean_name\<close> once more, for every Python string: a string is a list of code points, and
  what Python takes from the Unicode tables is a parameter, \<open>unicode\<close>: \<^verbatim>\<open>str.lower\<close> on a
  whole string (it is not character-wise: U+0130 becomes two code points, and the capital
  sigma depends on its neighbours), the whitespace class shared by \<^verbatim>\<open>str.strip()\<close> and
  \<^verbatim>\<open>\s\<close>, and the upper-case test \<^verbatim>\<open>str.isupper\<close> on one character. The underscore is code
  point 95; the nine removed characters are \<open>u_illegal\<close>. On ASCII tables this is
  \<open>clean_name\<close> (lemma \<open>clean_name_ascii\<close> below), which \<^verbatim>\<open>get_file\<close> and \<^verbatim>\<open>run\<close> use above.
\<close>

type_synonym ustring = "nat list"

record unicode =
  u_lower :: "ustring \<Rightarrow> ustring"
  u_isspace :: "nat \<Rightarrow> bool"
  u_isupper :: "nat \<Rightarrow> bool"

text \<open>\<^verbatim>\<open>text.strip()\<close> and \<^verbatim>\<open>re.sub(r'\s+', '_', text)\<close>.\<close>

definition u_strip :: "unicode \<Rightarrow> ustring \<Rightarrow> ustring" where
  "u_strip U s = rev (dropWhile (u_isspace U) (rev (dropWhile (u_isspace U) s)))"

function u_sub_ws :: "unicode \<Rightarrow> ustring \<Rightarrow> ustring" where
  "u_sub_ws U [] = []"
| "u_sub_ws U (c # cs) =
     (if u_isspace U c then 95 # u_sub_ws U (dropWhile (u_isspace U) cs)
      else c # u_sub_ws U cs)"
  by pat_completeness auto
termination
  by (relation "measure (\<lambda>(U, s). length s)") (auto simp: length_dropWhile_le less_Suc_eq_le)

definition u_illegal :: "nat list" where
  "u_illegal = [92, 47, 42, 63, 58, 34, 60, 62, 124]"

definition u_sub_illegal :: "ustring \<Rightarrow> ustring" where
  "u_sub_illegal s = filter (\<lambda>c. c \<notin> set u_illegal) s"

text \<open>\<^verbatim>\<open>ResourceDownloader._clean_name\<close> (lines 67-70).\<close>

definition u_clean_name :: "unicode \<Rightarrow> ustring \<Rightarrow> ustring" where
  "u_clean_name U text = u_sub_illegal (u_sub_ws U (u_strip U (u_lower U text)))"

text \<open>The tables restricted to ASCII, as the text primitives of the first section have
  them.\<close>

definition ascii_tables :: unicode where
  "ascii_tables =
     \<lparr>u_lower = map (\<lambda>c. if 65 \<le> c \<and> c \<le> 90 then c + 32 else c),
      u_isspace = (\<lambda>c. c \<in> set [9, 10, 11, 12, 13, 28, 29, 30, 31, 32]),
      u_isupper = (\<lambda>c. 65 \<le> c \<and> c \<le> 90)\<rparr>"

text \<open>
  A part of the tables of CPython 3.11 (Unicode 14.0): the whitespace class in full;
  lower-casing and the upper-case test for the code points below U+0100 and for U+2102
  (the double-struck capital C, an upper-case letter without a lower-case form). Other
  code points are left unchanged by \<open>u_lower\<close> and are not upper-case here.
\<close>

definition py_lower_cp :: "nat \<Rightarrow> nat" where
  "py_lower_cp c =
     (if (65 \<le> c \<and> c \<le> 90) \<or> (192 \<le> c \<and> c \<le> 222 \<and> c \<noteq> 215) then c + 32 else c)"

definition py_tables :: unicode where
  "py_tables =
     \<lparr>u_lower = map py_lower_cp,
      u_isspace = (\<lambda>c. c \<in> set [9, 10, 11, 12, 13, 28, 29, 30, 31, 32, 133, 160, 5760,
                                  8192, 8193, 8194, 8195, 8196, 8197, 8198, 8199, 8200, 8201,
                                  8202, 8232, 8233, 8239, 8287, 12288]),
      u_isupper = (\<lambda>c. (65 \<le> c \<and> c \<le> 90) \<or> (192 \<le> c \<and> c \<le> 222 \<and> c \<noteq> 215) \<or>
                       c = 8450)\<rparr>"

text \<open>Every resource record that the walk meets has a \<^verbatim>\<open>url\<close>, so that line 170 does not
  raise.\<close>

definition urls_present :: "(string \<times> cm_item) list \<Rightarrow> sec list \<Rightarrow> bool" where
  "urls_present cm_map secs =
     list_all (\<lambda>s. list_all (\<lambda>cm_id.
        case map_of cm_map cm_id of
          None \<Rightarrow> True
        | Some item \<Rightarrow> item_module item \<noteq> ''resource'' \<or> item_url item \<noteq> None)
       (sec_cmlist s)) secs"

section \<open>The name sanitizer\<close>

lemma u_sub_ws_no_space: "c \<in> set (u_sub_ws U s) \<Longrightarrow> \<not> u_isspace U 95 \<Longrightarrow> \<not> u_isspace U c"
proof (induction U s rule: u_sub_ws.induct)
  case (1 U)
  then show ?case by simp
next
  case (2 U d ds)
  then show ?case by (cases "u_isspace U d") auto
qed

lemma set_u_sub_ws: "set (u_sub_ws U s) \<subseteq> insert 95 (set s)"
proof (induction U s rule: u_sub_ws.induct)
  case (1 U)
  show ?case by simp
next
  case (2 U c cs)
  show ?case
  proof (cases "u_isspace U c")
    case True
    with 2 have "set (u_sub_ws U (dropWhile (u_isspace U) cs)) \<subseteq>
                 insert 95 (set (dropWhile (u_isspace U) cs))"
      by simp
    moreover have "set (dropWhile (u_isspace U) cs) \<subseteq> set cs"
      by (auto dest: set_dropWhileD)
    ultimately show ?thesis using True by auto
  next
    case False
    with 2 show ?thesis by auto
  qed
qed

lemma set_u_strip: "set (u_strip U s) \<subseteq> set s"
proof -
  have "set (rev (dropWhile P (rev t))) \<subseteq> set t" for P and t :: ustring
    using set_dropWhileD [of _ P "rev t"] by auto
  moreover have "set (dropWhile (u_isspace U) s) \<subseteq> set s"
    by (auto dest: set_dropWhileD)
  ultimately show ?thesis unfolding u_strip_def by blast
qed

lemma u_sub_ws_id: "\<forall>c\<in>set s. \<not> u_isspace U c \<Longrightarrow> u_sub_ws U s = s"
  by (induction s) auto

lemma u_strip_id:
  assumes "\<forall>c\<in>set s. \<not> u_isspace U c"
  shows "u_strip U s = s"
proof -
  have "dropWhile (u_isspace U) t = t" if "\<forall>c\<in>set t. \<not> u_isspace U c" for t
    using that by (cases t) auto
  from this [of s] this [of "rev s"] assms show ?thesis
    by (simp add: u_strip_def)
qed

lemma u_clean_name_chars:
  assumes "c \<in> set (u_clean_name U t)" and "\<not> u_isspace U 95"
  shows "\<not> u_isspace U c \<and> c \<notin> set u_illegal \<and> c \<in> insert 95 (set (u_lower U t))"
proof -
  from assms(1) have ill: "c \<notin> set u_illegal" and
    c: "c \<in> set (u_sub_ws U (u_strip U (u_lower U t)))"
    by (auto simp: u_clean_name_def u_sub_illegal_def)
  from c assms(2) have sp: "\<not> u_isspace U c" by (rule u_sub_ws_no_space)
  from c set_u_sub_ws set_u_strip have "c \<in> insert 95 (set (u_lower U t))" by blast
  with sp ill show ?thesis by simp
qed

lemma u_clean_name_stable:
  assumes low: "\<forall>t s. set s \<subseteq> insert 95 (set (u_lower U t)) \<longrightarrow> u_lower U s = s"
    and us: "\<not> u_isspace U 95"
  shows "u_clean_name U (u_clean_name U t) = u_clean_name U t"
proof -
  let ?s = "u_clean_name U t"
  have P: "\<forall>c\<in>set ?s. \<not> u_isspace U c \<and> c \<notin> set u_illegal \<and>
                        c \<in> insert 95 (set (u_lower U t))"
    using u_clean_name_chars [OF _ us] by blast
  then have "set ?s \<subseteq> insert 95 (set (u_lower U t))" by blast
  with low have "u_lower U ?s = ?s" by blast
  moreover from P have "u_strip U ?s = ?s" "u_sub_ws U ?s = ?s" "u_sub_illegal ?s = ?s"
    by (simp_all add: u_strip_id u_sub_ws_id u_sub_illegal_def)
  ultimately show ?thesis by (simp add: u_clean_name_def)
qed

text \<open>
  C9 (as amended). The sanitizer is idempotent: for every input string, applying
  \<^verbatim>\<open>_clean_name\<close> twice gives the same result as applying it once, because its output
  contains no whitespace, none of the nine characters it removes, and no character that
  lower-casing changes. The two properties of the tables that this rests on are the
  hypotheses: \<^verbatim>\<open>str.lower\<close> leaves unchanged a text made of characters of a lower-cased text
  and underscores, and the underscore is not whitespace.
\<close>

theorem u_clean_name_idempotent:
  assumes "\<forall>t s. set s \<subseteq> insert 95 (set (u_lower U t)) \<longrightarrow> u_lower U s = s"
    and "\<not> u_isspace U 95"
  shows "u_clean_name U (u_clean_name U t) = u_clean_name U t \<and>
         (\<forall>c\<in>set (u_clean_name U t).
            \<not> u_isspace U c \<and> c \<notin> set u_illegal \<and> u_lower U [c] = [c])"
proof -
  have "u_lower U [c] = [c]" if "c \<in> set (u_clean_name U t)" for c
  proof -
    from u_clean_name_chars [OF that assms(2)]
    have "set [c] \<subseteq> insert 95 (set (u_lower U t))" by simp
    with assms(1) show ?thesis by blast
  qed
  with u_clean_name_chars [OF _ assms(2)] u_clean_name_stable [OF assms] show ?thesis
    by blast
qed

lemma py_lower_cp_stable: "py_lower_cp (py_lower_cp c) = py_lower_cp c"
  by (simp add: py_lower_cp_def)

lemma py_tables_simps [simp]:
  "u_lower py_tables = map py_lower_cp"
  "u_isspace py_tables 95 = False"
  by (simp_all add: py_tables_def)

lemma py_tables_lower_stable:
  "\<forall>t s. set s \<subseteq> insert 95 (set (u_lower py_tables t)) \<longrightarrow> u_lower py_tables s = s"
proof (intro allI impI)
  fix t s :: ustring
  assume a: "set s \<subseteq> insert 95 (set (u_lower py_tables t))"
  have "py_lower_cp c = c" if "c \<in> set s" for c
  proof -
    from that a have "c = 95 \<or> (\<exists>x. c = py_lower_cp x)" by auto
    then show ?thesis
    proof
      assume "c = 95" then show ?thesis by (simp add: py_lower_cp_def)
    next
      assume "\<exists>x. c = py_lower_cp x" then show ?thesis by (auto simp: py_lower_cp_stable)
    qed
  qed
  then show "u_lower py_tables s = s" by (simp add: map_idI)
qed

lemma py_example: "u_clean_name py_tables [196, 160, 66, 47, 8450] = [228, 95, 98, 8450]"
  by (simp add: u_clean_name_def u_strip_def u_sub_illegal_def u_illegal_def py_tables_def py_lower_cp_def)

theorem u_clean_name_idempotent_witness:
  "u_clean_name py_tables [196, 160, 66, 47, 8450] = [228, 95, 98, 8450] \<and>
   u_clean_name py_tables (u_clean_name py_tables [196, 160, 66, 47, 8450]) =
     [228, 95, 98, 8450]"
proof -
  have us: "\<not> u_isspace py_tables 95" by simp
  from u_clean_name_idempotent [OF py_tables_lower_stable us, of "[196, 160, 66, 47, 8450]"]
    py_example
  show ?thesis by simp
qed

text \<open>
  C9 as stated fails in its reason: the output can contain an upper-case letter. The
  one-character string U+2102 is upper-case for \<^verbatim>\<open>str.isupper\<close>, has no lower-case form, is
  neither whitespace nor one of the nine characters, and so is returned as it is.
\<close>

theorem u_clean_name_keeps_upper:
  "u_clean_name py_tables [8450] = [8450] \<and> u_isupper py_tables 8450"
  by (simp add: u_clean_name_def u_strip_def u_sub_illegal_def u_illegal_def py_tables_def
      py_lower_cp_def)

subsection \<open>Agreement with the ASCII primitives\<close>

lemma of_char_lower_char:
  "(of_char (lower_char c) :: nat) =
     (if 65 \<le> (of_char c :: nat) \<and> (of_char c :: nat) \<le> 90 then of_char c + 32 else of_char c)"
  by (simp add: lower_char_def isupper_def)

lemma isspace_of_char: "isspace c \<longleftrightarrow> u_isspace ascii_tables (of_char c)"
proof -
  have "isspace c \<longleftrightarrow> (of_char c :: nat) \<in> of_char ` set [CHR 0x09, CHR 0x0A, CHR 0x0B,
          CHR 0x0C, CHR 0x0D, CHR 0x1C, CHR 0x1D, CHR 0x1E, CHR 0x1F, CHR '' '']"
    unfolding isspace_def by (simp only: inj_image_mem_iff [OF inj_of_char])
  then show ?thesis by (simp add: ascii_tables_def)
qed

lemma illegal_of_char: "c \<in> set illegal \<longleftrightarrow> (of_char c :: nat) \<in> set u_illegal"
proof -
  have "c \<in> set illegal \<longleftrightarrow> (of_char c :: nat) \<in> of_char ` set illegal"
    by (simp only: inj_image_mem_iff [OF inj_of_char])
  then show ?thesis by (simp add: illegal_def u_illegal_def)
qed

lemma lower_ascii: "map of_char (lower s) = u_lower ascii_tables (map of_char s)"
  by (simp add: lower_def ascii_tables_def of_char_lower_char)

lemma isspace_ascii: "isspace = (\<lambda>c. u_isspace ascii_tables (of_char c))"
  by (rule ext) (rule isspace_of_char)

lemma dropWhile_ascii:
  "map of_char (dropWhile isspace s) = dropWhile (u_isspace ascii_tables) (map of_char s)"
  unfolding dropWhile_map comp_def by (simp only: isspace_ascii)

lemma strip_ascii: "map of_char (strip s) = u_strip ascii_tables (map of_char s)"
proof -
  have "map of_char (strip s) = rev (map of_char (dropWhile isspace (rev (dropWhile isspace s))))"
    by (simp add: strip_def lstrip_def rstrip_def rev_map)
  also have "\<dots> = rev (dropWhile (u_isspace ascii_tables)
                       (map of_char (rev (dropWhile isspace s))))"
    by (simp only: dropWhile_ascii)
  also have "\<dots> = rev (dropWhile (u_isspace ascii_tables)
                       (rev (map of_char (dropWhile isspace s))))"
    by (simp only: rev_map)
  also have "\<dots> = u_strip ascii_tables (map of_char s)"
    by (simp only: dropWhile_ascii u_strip_def)
  finally show ?thesis .
qed

lemma sub_ws_ascii: "map of_char (sub_ws s) = u_sub_ws ascii_tables (map of_char s)"
proof (induction s rule: sub_ws.induct)
  case 1
  show ?case by simp
next
  case (2 c cs)
  then show ?case by (simp add: isspace_of_char dropWhile_ascii)
qed

lemma sub_illegal_ascii: "map of_char (sub_illegal s) = u_sub_illegal (map of_char s)"
  by (simp add: sub_illegal_def u_sub_illegal_def filter_map comp_def illegal_of_char)

lemma clean_name_ascii:
  "map of_char (clean_name s) = u_clean_name ascii_tables (map of_char s)"
  by (simp add: clean_name_def u_clean_name_def sub_illegal_ascii sub_ws_ascii strip_ascii
      lower_ascii)

section \<open>File names\<close>

lemma filename_lecture_notes:
  "filename_of ''application/pdf'' ''Lecture Notes File'' = ''lecture_notes.pdf''"
  by code_simp

lemma filename_of_known_ending:
  "list_ex (\<lambda>e. suffix e (base_name_of n)) known_endings \<Longrightarrow> filename_of c n = base_name_of n"
  by (simp add: filename_of_def)

lemma filename_of_other:
  "\<not> list_ex (\<lambda>e. suffix e (base_name_of n)) known_endings \<Longrightarrow>
   filename_of c n = base_name_of n @ extension_of c"
  by (simp add: filename_of_def)

lemma filename_syllabus:
  "filename_of ''application/pdf'' ''Syllabus.pdf'' = ''syllabus.pdf''"
  by code_simp

text \<open>
  C4. A base name that already ends in one of the extensions of the content-type table
  (pdf, doc/docx, ppt/pptx, xls/xlsx, plain text, zip) is to be stored as it is. The list
  of line 98 has eight of the nine extensions of \<^verbatim>\<open>ext_map\<close>: \<^verbatim>\<open>.txt\<close> is missing, so a
  plain-text resource named \<^verbatim>\<open>notes.txt\<close> is stored as \<^verbatim>\<open>notes.txt.txt\<close>.
\<close>

theorem txt_double_extension:
  "base_name_of ''notes.txt'' = ''notes.txt'' \<and>
   extension_of ''text/plain'' = ''.txt'' \<and>
   filename_of ''text/plain'' ''notes.txt'' = ''notes.txt.txt''"
  by code_simp

section \<open>The history file\<close>


lemma ex_env_simps [simp]:
  "remote ex_env = ex_remote"
  "denied ex_env p = False"
  "json_load ex_env = ex_json_load"
  "json_dump ex_env = ex_json_dump"
  "get_text ex_env s = s"
  by (simp_all add: ex_env_def)



section \<open>Fetching one resource\<close>

lemma tqdm_write_simps [simp]:
  "files (tqdm_write e w) = files w"
  "requests (tqdm_write e w) = requests w"
  "out (tqdm_write e w) = out w @ [e]"
  by (simp_all add: tqdm_write_def)

lemma keys_map_of: "k \<in> fst ` set al \<longleftrightarrow> (\<exists>v. map_of al k = Some v)"
  by (metis domD domI dom_map_of_conv_image_fst)








subsection \<open>The three cases of \<^verbatim>\<open>get_file\<close>\<close>








lemma lower_text_html: "lower ''text/html'' = ''text/html''"
  by code_simp

lemma sublist_lower: "sublist ''text/html'' c \<Longrightarrow> sublist ''text/html'' (lower c)"
  using map_mono_sublist [of "''text/html''" c lower_char] lower_text_html
  by (simp add: lower_def)

lemma get_file_Some_cases:
  assumes "get_file E d w url folder_name display_name = (Some p, d', w')"
  shows "(url \<in> fst ` set (history d) \<and> map_of (history d) url = Some p \<and> d' = d \<and>
            w' = tqdm_write (EXIST display_name) w) \<or>
         (url \<notin> fst ` set (history d) \<and> \<not> denied E index_file \<and>
            d' = d\<lparr>history := AList.update url p (history d)\<rparr> \<and>
            files w' index_file = Some (json_dump E (AList.update url p (history d))))"
  using assms
  by (auto simp: get_file_def Let_def save_history_def
           split: if_splits option.splits)

subsection \<open>The example requests\<close>

lemma ex_targets_differ: "target_url_of ex_html_url \<noteq> target_url_of ex_pdf_url"
  by code_simp

lemma ex_remote_simps [simp]:
  "ex_remote (target_url_of ex_pdf_url) = Some ex_pdf_response"
  "ex_remote (target_url_of ex_html_url) = Some ex_html_response"
  by (simp_all add: ex_remote_def ex_targets_differ)

lemma ex_get_pdf:
  "fst (get_file ex_env ex_downloader ex_world ex_pdf_url ''week_1'' ''Lecture Notes File'') =
     Some ''week_1/lecture_notes.pdf''"
  by code_simp


subsection \<open>Properties of \<^verbatim>\<open>get_file\<close>\<close>

text \<open>
  C2. For a URL that is already a key of the history, \<^verbatim>\<open>get_file\<close> returns the stored path
  unchanged, issues no network request, and leaves the history (and the disk) as they
  were; it only prints the \<^verbatim>\<open>[EXIST]\<close> line.
\<close>

theorem get_file_cached:
  assumes "url \<in> fst ` set (history d)"
  shows "\<exists>path. map_of (history d) url = Some path \<and>
           get_file E d w url folder_name display_name =
             (Some path, d, tqdm_write (EXIST display_name) w) \<and>
           requests (tqdm_write (EXIST display_name) w) = requests w \<and>
           files (tqdm_write (EXIST display_name) w) = files w"
proof -
  from assms obtain path where "map_of (history d) url = Some path"
    by (auto simp: keys_map_of)
  with assms show ?thesis by (simp add: get_file_def)
qed

theorem get_file_cached_witness:
  "ex_pdf_url \<in> fst ` set (history ex_cached_downloader) \<and>
   get_file ex_env ex_cached_downloader ex_world ex_pdf_url ''week_2'' ''Lecture Notes File'' =
     (Some ''week_1/lecture_notes.pdf'', ex_cached_downloader,
      tqdm_write (EXIST ''Lecture Notes File'') ex_world) \<and>
   requests (tqdm_write (EXIST ''Lecture Notes File'') ex_world) = []"
proof -
  have h: "ex_pdf_url \<in> fst ` set (history ex_cached_downloader)"
    by (simp add: ex_cached_downloader_def)
  have "map_of (history ex_cached_downloader) ex_pdf_url = Some ''week_1/lecture_notes.pdf''"
    by (simp add: ex_cached_downloader_def)
  with get_file_cached [OF h, of ex_env ex_world "''week_2''" "''Lecture Notes File''"] h
  show ?thesis by (auto simp: ex_world_def)
qed

text \<open>
  C3. When the response to a fetch declares a content type that contains \<^verbatim>\<open>text/html\<close>,
  the result is \<^verbatim>\<open>None\<close> (the outcome without a path), no file is written, and no entry is
  added to the history: only the request is recorded.
\<close>

theorem get_file_html_skipped:
  assumes "url \<notin> fst ` set (history d)"
    and "remote E (target_url_of url) = Some resp"
    and "content_type resp = Some c"
    and "sublist ''text/html'' c"
  shows "get_file E d w url folder_name display_name =
           (None, d, w\<lparr>requests := requests w @ [target_url_of url]\<rparr>) \<and>
         files (w\<lparr>requests := requests w @ [target_url_of url]\<rparr>) = files w"
proof -
  from assms(3,4) have "sublist ''text/html'' (ctype_of resp)"
    by (simp add: ctype_of_def sublist_lower)
  with assms(1,2) show ?thesis by (simp add: get_file_def Let_def)
qed

theorem get_file_html_skipped_witness:
  "remote ex_env (target_url_of ex_html_url) = Some ex_html_response \<and>
   content_type ex_html_response = Some ''text/html; charset=utf-8'' \<and>
   get_file ex_env ex_downloader ex_world ex_html_url ''week_1'' ''Quiz'' =
     (None, ex_downloader, ex_world\<lparr>requests := [target_url_of ex_html_url]\<rparr>)"
proof -
  have h1: "ex_html_url \<notin> fst ` set (history ex_downloader)"
    by (simp add: ex_downloader_def)
  have h2: "remote ex_env (target_url_of ex_html_url) = Some ex_html_response"
    by simp
  have h3: "content_type ex_html_response = Some ''text/html; charset=utf-8''"
    by (simp add: ex_html_response_def)
  have h4: "sublist ''text/html'' ''text/html; charset=utf-8''"
    by code_simp
  from get_file_html_skipped [OF h1 h2 h3 h4, of ex_world "''week_1''" "''Quiz''"] h2 h3
  show ?thesis by (simp add: ex_world_def)
qed

lemma lower_pdf: "lower ''application/pdf'' = ''application/pdf''"
  by code_simp

lemma pdf_not_html: "\<not> sublist ''text/html'' ''application/pdf''"
  by code_simp

lemma ex_index_file: "index_file = ''Second Semester/downloaded_index.json''"
  by code_simp

text \<open>
  C5. For a response of content type \<^verbatim>\<open>application/pdf\<close> and the display name
  \<^verbatim>\<open>Lecture Notes File\<close>, \<^verbatim>\<open>get_file\<close> stores the body under the file name
  \<^verbatim>\<open>lecture_notes.pdf\<close> in the section folder, records and returns that relative path, and
  prints \<^verbatim>\<open>[NEW] lecture_notes.pdf\<close>: the trailing \<^verbatim>\<open>File\<close> is stripped, the rest is trimmed
  and lower-cased, the whitespace run becomes one underscore, and \<^verbatim>\<open>.pdf\<close> is appended.
\<close>

theorem get_file_lecture_notes:
  assumes "url \<notin> fst ` set (history d)"
    and "remote E (target_url_of url) = Some resp"
    and "content_type resp = Some ''application/pdf''"
    and "\<not> denied E (os_path_join (subject_path d) (os_path_join folder_name ''lecture_notes.pdf''))"
    and "\<not> denied E index_file"
  shows "sub_kind ''Lecture Notes File'' = ''Lecture Notes '' \<and>
         strip (sub_kind ''Lecture Notes File'') = ''Lecture Notes'' \<and>
         base_name_of ''Lecture Notes File'' = ''lecture_notes'' \<and>
         extension_of (ctype_of resp) = ''.pdf'' \<and>
         filename_of (ctype_of resp) ''Lecture Notes File'' = ''lecture_notes.pdf'' \<and>
         get_file E d w url folder_name ''Lecture Notes File'' =
           (Some (os_path_join folder_name ''lecture_notes.pdf''),
            d\<lparr>history := AList.update url (os_path_join folder_name ''lecture_notes.pdf'')
                            (history d)\<rparr>,
            tqdm_write (NEW ''lecture_notes.pdf'')
              (w\<lparr>requests := requests w @ [target_url_of url],
                 files := (files w)
                   (os_path_join (subject_path d) (os_path_join folder_name ''lecture_notes.pdf'')
                      \<mapsto> body resp,
                    index_file \<mapsto> json_dump E
                      (AList.update url (os_path_join folder_name ''lecture_notes.pdf'')
                         (history d)))\<rparr>))"
proof -
  have c: "ctype_of resp = ''application/pdf''"
    using assms(3) by (simp add: ctype_of_def lower_pdf)
  have p: "sub_kind ''Lecture Notes File'' = ''Lecture Notes ''"
    "strip (sub_kind ''Lecture Notes File'') = ''Lecture Notes''"
    "base_name_of ''Lecture Notes File'' = ''lecture_notes''"
    "extension_of ''application/pdf'' = ''.pdf''"
    by code_simp+
  have "get_file E d w url folder_name ''Lecture Notes File'' =
           (Some (os_path_join folder_name ''lecture_notes.pdf''),
            d\<lparr>history := AList.update url (os_path_join folder_name ''lecture_notes.pdf'')
                            (history d)\<rparr>,
            tqdm_write (NEW ''lecture_notes.pdf'')
              (w\<lparr>requests := requests w @ [target_url_of url],
                 files := (files w)
                   (os_path_join (subject_path d) (os_path_join folder_name ''lecture_notes.pdf'')
                      \<mapsto> body resp,
                    index_file \<mapsto> json_dump E
                      (AList.update url (os_path_join folder_name ''lecture_notes.pdf'')
                         (history d)))\<rparr>))"
    using assms(1,2,4,5)
    by (simp add: get_file_def Let_def c pdf_not_html filename_lecture_notes save_history_def
        tqdm_write_def)
  with p c filename_lecture_notes show ?thesis by simp
qed

theorem get_file_lecture_notes_witness:
  "get_file ex_env ex_downloader ex_world ex_pdf_url ''week_1'' ''Lecture Notes File'' =
     (Some ''week_1/lecture_notes.pdf'',
      ex_downloader\<lparr>history := [(ex_pdf_url, ''week_1/lecture_notes.pdf'')]\<rparr>,
      tqdm_write (NEW ''lecture_notes.pdf'')
        (ex_world\<lparr>requests := [target_url_of ex_pdf_url],
           files := [''Second Semester/algebra/week_1/lecture_notes.pdf'' \<mapsto> ''%PDF-1.7'',
                     ''Second Semester/downloaded_index.json'' \<mapsto>
                       ex_json_dump [(ex_pdf_url, ''week_1/lecture_notes.pdf'')]]\<rparr>))"
proof -
  have h1: "ex_pdf_url \<notin> fst ` set (history ex_downloader)"
    by (simp add: ex_downloader_def)
  have h2: "remote ex_env (target_url_of ex_pdf_url) = Some ex_pdf_response"
    by simp
  have h3: "content_type ex_pdf_response = Some ''application/pdf''"
    by (simp add: ex_pdf_response_def)
  have h4: "\<not> denied ex_env (os_path_join (subject_path ex_downloader)
                                 (os_path_join ''week_1'' ''lecture_notes.pdf''))"
    by simp
  have h5: "\<not> denied ex_env index_file" by simp
  have j: "os_path_join ''week_1'' ''lecture_notes.pdf'' = ''week_1/lecture_notes.pdf''"
    "os_path_join ''Second Semester/algebra'' ''week_1/lecture_notes.pdf'' =
       ''Second Semester/algebra/week_1/lecture_notes.pdf''"
    by code_simp+
  from get_file_lecture_notes [OF h1 h2 h3 h4 h5, of ex_world] show ?thesis
    by (simp add: j ex_index_file ex_downloader_def ex_world_def ex_pdf_response_def)
qed

text \<open>
  C6. When a new download succeeds, the entry is inserted into the history and the whole
  mapping is written to the history file before \<^verbatim>\<open>get_file\<close> returns: on return the file
  holds exactly the mapping in memory. This holds for each download on its own; nothing
  is deferred to a later call.
\<close>

theorem get_file_persists:
  assumes "url \<notin> fst ` set (history d)"
    and "get_file E d w url folder_name display_name = (Some p, d', w')"
  shows "history d' = AList.update url p (history d) \<and>
         files w' index_file = Some (json_dump E (history d'))"
  using get_file_Some_cases [OF assms(2)] assms(1) by auto

theorem get_file_persists_witness:
  "fst (get_file ex_env ex_downloader ex_world ex_pdf_url ''week_1'' ''Lecture Notes File'') =
     Some ''week_1/lecture_notes.pdf'' \<and>
   history (fst (snd (get_file ex_env ex_downloader ex_world ex_pdf_url ''week_1''
                        ''Lecture Notes File''))) =
     [(ex_pdf_url, ''week_1/lecture_notes.pdf'')] \<and>
   files (snd (snd (get_file ex_env ex_downloader ex_world ex_pdf_url ''week_1''
                      ''Lecture Notes File''))) index_file =
     Some (ex_json_dump [(ex_pdf_url, ''week_1/lecture_notes.pdf'')])"
proof -
  let ?g = "get_file ex_env ex_downloader ex_world ex_pdf_url ''week_1'' ''Lecture Notes File''"
  have h: "ex_pdf_url \<notin> fst ` set (history ex_downloader)"
    by (simp add: ex_downloader_def)
  have g: "?g = (Some ''week_1/lecture_notes.pdf'', fst (snd ?g), snd (snd ?g))"
    using ex_get_pdf by (cases ?g) simp
  from get_file_persists [OF h g] ex_get_pdf show ?thesis
    by (simp add: ex_downloader_def)
qed

text \<open>
  C8. Whenever \<^verbatim>\<open>get_file\<close> returns a path, the history at the moment of return maps the
  requested URL to exactly that path, in the cached branch and in the download branch.
\<close>

theorem get_file_path_in_history:
  assumes "get_file E d w url folder_name display_name = (Some p, d', w')"
  shows "map_of (history d') url = Some p"
  using get_file_Some_cases [OF assms] by (auto simp: update_conv')

theorem get_file_path_in_history_witness:
  "fst (get_file ex_env ex_downloader ex_world ex_pdf_url ''week_1'' ''Lecture Notes File'') =
     Some ''week_1/lecture_notes.pdf'' \<and>
   map_of (history (fst (snd (get_file ex_env ex_downloader ex_world ex_pdf_url ''week_1''
                                ''Lecture Notes File'')))) ex_pdf_url =
     Some ''week_1/lecture_notes.pdf''"
proof -
  let ?g = "get_file ex_env ex_downloader ex_world ex_pdf_url ''week_1'' ''Lecture Notes File''"
  have g: "?g = (Some ''week_1/lecture_notes.pdf'', fst (snd ?g), snd (snd ?g))"
    using ex_get_pdf by (cases ?g) simp
  from get_file_path_in_history [OF g] ex_get_pdf show ?thesis by simp
qed

section \<open>Walking the course\<close>

subsection \<open>The inner loop\<close>

lemma visit_cm_cases:
  assumes "visit_cm E cmm f (d, w, r) c = Inr (d', w', r')"
  shows "(d' = d \<and> w' = w \<and> cm_visit cmm c = [] \<and> (\<exists>ls. r' = r @ ls \<and>
            (\<forall>d2 w2 r2. visit_cm E cmm f (d2, w2, r2) c = Inr (d2, w2, r2 @ ls)))) \<or>
         (\<exists>item url res ls. map_of cmm c = Some item \<and> item_module item = ''resource'' \<and>
            item_url item = Some url \<and> cm_visit cmm c = [(url, item_name item)] \<and>
            get_file E d w url f (item_name item) = (res, d', w') \<and> r' = r @ ls \<and>
            (\<forall>d2 w2 w2' r2. get_file E d2 w2 url f (item_name item) = (res, d2, w2') \<longrightarrow>
                visit_cm E cmm f (d2, w2, r2) c = Inr (d2, w2', r2 @ ls)))"
proof (cases "map_of cmm c")
  case None
  with assms show ?thesis by (auto simp: visit_cm_def cm_visit_def)
next
  case (Some item)
  show ?thesis
  proof (cases "item_module item = ''resource''")
    case False
    with Some assms show ?thesis by (auto simp: visit_cm_def cm_visit_def)
  next
    case True
    with Some assms obtain url where u: "item_url item = Some url"
      by (auto simp: visit_cm_def split: option.splits)
    obtain res d1 w1 where g: "get_file E d w url f (item_name item) = (res, d1, w1)"
      by (cases "get_file E d w url f (item_name item)") auto
    have cv: "cm_visit cmm c = [(url, item_name item)]"
      using Some True u by (simp add: cm_visit_def)
    show ?thesis
    proof (cases res)
      case None
      with Some True u g assms have "d' = d1" "w' = w1" "r' = r @ []"
        by (auto simp: visit_cm_def cm_visit_def)
      moreover have "visit_cm E cmm f (d2, w2, r2) c = Inr (d2, w2', r2 @ [])"
        if "get_file E d2 w2 url f (item_name item) = (res, d2, w2')" for d2 w2 w2' r2
        using that None Some True u by (simp add: visit_cm_def)
      ultimately show ?thesis using Some True u g cv by blast
    next
      case (Some p)
      note p = this
      show ?thesis
      proof (cases "p = []")
        case e: True
        with p \<open>map_of cmm c = Some item\<close> True u g assms
        have "d' = d1" "w' = w1" "r' = r @ []"
          by (auto simp: visit_cm_def cm_visit_def)
        moreover have "visit_cm E cmm f (d2, w2, r2) c = Inr (d2, w2', r2 @ [])"
          if "get_file E d2 w2 url f (item_name item) = (res, d2, w2')" for d2 w2 w2' r2
          using that p e \<open>map_of cmm c = Some item\<close> True u by (simp add: visit_cm_def)
        ultimately show ?thesis using \<open>map_of cmm c = Some item\<close> True u g cv by blast
      next
        case ne: False
        let ?l = "''* [['' @ replace_sep p @ ''|'' @ get_text E (item_name item) @ '']]''"
        from ne p \<open>map_of cmm c = Some item\<close> True u g assms
        have "d' = d1" "w' = w1" "r' = r @ [?l]"
          by (auto simp: visit_cm_def cm_visit_def)
        moreover have "visit_cm E cmm f (d2, w2, r2) c = Inr (d2, w2', r2 @ [?l])"
          if "get_file E d2 w2 url f (item_name item) = (res, d2, w2')" for d2 w2 w2' r2
          using that p ne \<open>map_of cmm c = Some item\<close> True u by (simp add: visit_cm_def)
        ultimately show ?thesis using \<open>map_of cmm c = Some item\<close> True u g cv by blast
      qed
    qed
  qed
qed











subsection \<open>Paths\<close>





subsection \<open>The outer loop\<close>

lemma visit_section_cases:
  assumes "visit_section E sdir cmm (d, w, r) s = Inr (d', w', r')"
  shows "\<not> denied E (os_path_join sdir (clean_name (raw_name_of s))) \<and>
         \<not> denied E (os_path_join (os_path_join sdir (clean_name (raw_name_of s))) ''context.txt'') \<and>
         cm_loop E cmm (clean_name (raw_name_of s))
           (d, w\<lparr>files := (files w)(os_path_join (os_path_join sdir (clean_name (raw_name_of s)))
                                      ''context.txt'' \<mapsto> context_text E s)\<rparr>,
            r @ [[CHR 0x0A] @ ''## '' @ raw_name_of s]) (sec_cmlist s) = Inr (d', w', r')"
  using assms by (auto simp: visit_section_def Let_def split: if_splits)











subsection \<open>Modules that are not resources\<close>

text \<open>A module record that is not a resource and has no \<^verbatim>\<open>url\<close>: the loop body appends
  the entry with the placeholder target and touches nothing else.\<close>

lemma visit_cm_link_without_url:
  assumes "map_of cm_map cm_id = Some item"
    and "item_module item \<noteq> ''resource''"
    and "item_url item = None"
  shows "visit_cm E cm_map folder_name (d, w, readme_content) cm_id =
           Inr (d, w, readme_content @ [''* ['' @ get_text E (item_name item) @ '']('' @ ''#'' @ '')''])"
  using assms by (simp add: visit_cm_def)

text \<open>The entry stays in the index document: lines are only ever appended, so it is
  among the lines the inner loop hands back whenever that loop completes.\<close>

lemma visit_cm_appends:
  assumes "visit_cm E cmm f (d, w, r) c = Inr (d', w', r')"
  shows "\<exists>ls. r' = r @ ls"
  using visit_cm_cases [OF assms] by blast

lemma cm_loop_appends:
  "cm_loop E cmm f (d, w, r) cs = Inr (d', w', r') \<Longrightarrow> \<exists>ls. r' = r @ ls"
proof (induction cs arbitrary: d w r)
  case Nil
  then show ?case by simp
next
  case (Cons c cs)
  then obtain d1 w1 r1 where
    v: "visit_cm E cmm f (d, w, r) c = Inr (d1, w1, r1)" and
    l: "cm_loop E cmm f (d1, w1, r1) cs = Inr (d', w', r')"
    by (auto split: sum.splits)
  from visit_cm_appends [OF v] Cons.IH [OF l] show ?case by auto
qed

lemma cm_loop_link_without_url:
  assumes "map_of cmm c = Some item" and "item_module item \<noteq> ''resource''"
    and "item_url item = None"
  shows "c \<in> set cs \<Longrightarrow> cm_loop E cmm f (d, w, r) cs = Inr (d', w', r') \<Longrightarrow>
         ''* ['' @ get_text E (item_name item) @ ''](#)'' \<in> set r'"
proof (induction cs arbitrary: d w r)
  case Nil
  then show ?case by simp
next
  case (Cons x cs)
  then obtain d1 w1 r1 where
    v: "visit_cm E cmm f (d, w, r) x = Inr (d1, w1, r1)" and
    l: "cm_loop E cmm f (d1, w1, r1) cs = Inr (d', w', r')"
    by (auto split: sum.splits)
  show ?case
  proof (cases "x = c")
    case True
    with v assms have "r1 = r @ [''* ['' @ get_text E (item_name item) @ ''](#)'']"
      by (simp add: visit_cm_def)
    moreover from cm_loop_appends [OF l] obtain ls where "r' = r1 @ ls" by blast
    ultimately show ?thesis by simp
  next
    case False
    with Cons.prems(1) have "c \<in> set cs" by simp
    from Cons.IH [OF this l] show ?thesis .
  qed
qed

section \<open>Running the program twice\<close>



lemma run_CoursePage_Inr:
  assumes "run E m (CoursePage t st) w = Inr (m', w')"
  shows "\<exists>d wa r. section_loop E (subject_dir m) (cm_map_of (state_cm st))
             (the_downloader m, w, readme_head t (course_url m)) (state_section st) = Inr (d, wa, r) \<and>
           m' = m\<lparr>the_downloader := d\<rparr> \<and>
           w' = wa\<lparr>files := (files wa)(readme_path m \<mapsto> join_lines r)\<rparr>"
proof (cases "section_loop E (subject_dir m) (cm_map_of (state_cm st))
             (the_downloader m, w, readme_head t (course_url m)) (state_section st)")
  case (Inl e)
  with assms show ?thesis by (simp add: run_def split: if_splits)
next
  case (Inr x)
  obtain d wa r where "x = (d, wa, r)" by (cases x) auto
  with Inr assms show ?thesis by (simp add: run_def split: if_splits)
qed












text \<open>
  The amended statement assumes that no write is refused. Where one is, the index
  document itself can differ between the two runs: below, the first run fails on the
  module named \<^verbatim>\<open>File\<close> and stores the same URL under the second module's name, so the
  second run finds the URL in the history at the first module already and links it.
\<close>

lemma refused_write_changes_index:
  "observe (main dir_env ''https://moodle.example/course/view.php?id=1'' ''Algebra''
              (CoursePage ''Algebra'' dup_state) ex_world) =
     Inr ([(ex_bin_url, ''week_1/slides'')],
          [target_url_of ex_bin_url, target_url_of ex_bin_url],
          [ERR ''File'', NEW ''slides''],
          Some (join_lines
            [''# Algebra'',
             [nl] @ ''[Moodle Link](https://moodle.example/course/view.php?id=1)'',
             ''[[class_notes/|Class Notes]]'' @ [nl],
             ''---'',
             [nl] @ ''## Week 1'',
             ''* [[week_1/slides|Slides]]''])) \<and>
   observe (main_again dir_env ''https://moodle.example/course/view.php?id=1'' ''Algebra''
              (CoursePage ''Algebra'' dup_state)
              (main dir_env ''https://moodle.example/course/view.php?id=1'' ''Algebra''
                 (CoursePage ''Algebra'' dup_state) ex_world)) =
     Inr ([(ex_bin_url, ''week_1/slides'')],
          [target_url_of ex_bin_url, target_url_of ex_bin_url],
          [ERR ''File'', NEW ''slides'', EXIST ''File'', EXIST ''Slides''],
          Some (join_lines
            [''# Algebra'',
             [nl] @ ''[Moodle Link](https://moodle.example/course/view.php?id=1)'',
             ''[[class_notes/|Class Notes]]'' @ [nl],
             ''---'',
             [nl] @ ''## Week 1'',
             ''* [[week_1/slides|File]]'',
             ''* [[week_1/slides|Slides]]'']))"
  by code_simp

section \<open>Modules without a URL in the index document\<close>

lemma sublist_join_lines: "l \<in> set ls \<Longrightarrow> sublist l (join_lines ls)"
proof (induction ls rule: join_lines.induct)
  case 1
  then show ?case by simp
next
  case (2 x)
  then show ?case by simp
next
  case (3 x y ys)
  show ?case
  proof (cases "l = x")
    case True
    then show ?thesis by simp
  next
    case False
    with 3 have "sublist l (join_lines (y # ys))" by simp
    moreover have "sublist (join_lines (y # ys)) ((x @ [CHR 0x0A]) @ join_lines (y # ys))"
      by (rule sublist_append_leftI)
    ultimately have "sublist l ((x @ [CHR 0x0A]) @ join_lines (y # ys))"
      by (rule sublist_order.order.trans)
    then show ?thesis by simp
  qed
qed

lemma visit_section_appends:
  assumes "visit_section E sdir cmm (d, w, r) s = Inr (d', w', r')"
  shows "\<exists>ls. r' = r @ ls"
  using visit_section_cases [OF assms] cm_loop_appends by fastforce

lemma section_loop_appends:
  "section_loop E sdir cmm (d, w, r) ss = Inr (d', w', r') \<Longrightarrow> \<exists>ls. r' = r @ ls"
proof (induction ss arbitrary: d w r)
  case Nil
  then show ?case by simp
next
  case (Cons s ss)
  then obtain d1 w1 r1 where
    v: "visit_section E sdir cmm (d, w, r) s = Inr (d1, w1, r1)" and
    l: "section_loop E sdir cmm (d1, w1, r1) ss = Inr (d', w', r')"
    by (auto split: sum.splits)
  from visit_section_appends [OF v] Cons.IH [OF l] show ?case by auto
qed

lemma section_loop_link_without_url:
  assumes "map_of cmm c = Some item" and "item_module item \<noteq> ''resource''"
    and "item_url item = None"
  shows "s \<in> set ss \<Longrightarrow> c \<in> set (sec_cmlist s) \<Longrightarrow>
         section_loop E sdir cmm (d, w, r) ss = Inr (d', w', r') \<Longrightarrow>
         ''* ['' @ get_text E (item_name item) @ ''](#)'' \<in> set r'"
proof (induction ss arbitrary: d w r)
  case Nil
  then show ?case by simp
next
  case (Cons x ss)
  then obtain d1 w1 r1 where
    v: "visit_section E sdir cmm (d, w, r) x = Inr (d1, w1, r1)" and
    l: "section_loop E sdir cmm (d1, w1, r1) ss = Inr (d', w', r')"
    by (auto split: sum.splits)
  show ?case
  proof (cases "x = s")
    case True
    from visit_section_cases [OF v] cm_loop_link_without_url [OF assms] Cons.prems(2) True
    have "''* ['' @ get_text E (item_name item) @ ''](#)'' \<in> set r1" by blast
    moreover from section_loop_appends [OF l] obtain ls where "r' = r1 @ ls" by blast
    ultimately show ?thesis by simp
  next
    case False
    with Cons.prems(1) have "s \<in> set ss" by simp
    from Cons.IH [OF this Cons.prems(2) l] show ?thesis .
  qed
qed

lemma visit_cm_completes:
  assumes "case map_of cmm c of None \<Rightarrow> True
           | Some item \<Rightarrow> item_module item \<noteq> ''resource'' \<or> item_url item \<noteq> None"
  shows "\<exists>st'. visit_cm E cmm f st c = Inr st'"
proof (cases st)
  case (fields d w r)
  show ?thesis
  proof (cases "map_of cmm c")
    case None
    with fields show ?thesis by (simp add: visit_cm_def)
  next
    case (Some item)
    show ?thesis
    proof (cases "item_module item = ''resource''")
      case False
      with Some fields show ?thesis by (simp add: visit_cm_def)
    next
      case True
      with Some assms obtain url where u: "item_url item = Some url" by auto
      obtain res d1 w1 where "get_file E d w url f (item_name item) = (res, d1, w1)"
        by (cases "get_file E d w url f (item_name item)") auto
      with Some True u fields show ?thesis
        by (cases res) (simp_all add: visit_cm_def)
    qed
  qed
qed

lemma cm_loop_completes:
  "list_all (\<lambda>c. case map_of cmm c of None \<Rightarrow> True
       | Some item \<Rightarrow> item_module item \<noteq> ''resource'' \<or> item_url item \<noteq> None) cs \<Longrightarrow>
   \<exists>st'. cm_loop E cmm f st cs = Inr st'"
proof (induction cs arbitrary: st)
  case Nil
  show ?case by (rule exI [of _ st]) simp
next
  case (Cons c cs)
  from Cons.prems have
    a: "case map_of cmm c of None \<Rightarrow> True
        | Some item \<Rightarrow> item_module item \<noteq> ''resource'' \<or> item_url item \<noteq> None" and
    b: "list_all (\<lambda>c. case map_of cmm c of None \<Rightarrow> True
          | Some item \<Rightarrow> item_module item \<noteq> ''resource'' \<or> item_url item \<noteq> None) cs"
    by simp_all
  from visit_cm_completes [OF a] obtain st1 where v: "visit_cm E cmm f st c = Inr st1"
    by blast
  from Cons.IH [OF b] obtain st2 where l: "cm_loop E cmm f st1 cs = Inr st2" by blast
  from v l have "cm_loop E cmm f st (c # cs) = Inr st2" by simp
  then show ?case by (rule exI)
qed

lemma section_loop_completes:
  "\<forall>p. \<not> denied E p \<Longrightarrow> urls_present cmm ss \<Longrightarrow>
   \<exists>st'. section_loop E sdir cmm st ss = Inr st'"
proof (induction ss arbitrary: st)
  case Nil
  show ?case by (rule exI [of _ st]) simp
next
  case (Cons s ss)
  obtain d w r where st: "st = (d, w, r)" by (cases st) auto
  from Cons.prems(2) have
    a: "list_all (\<lambda>c. case map_of cmm c of None \<Rightarrow> True
          | Some item \<Rightarrow> item_module item \<noteq> ''resource'' \<or> item_url item \<noteq> None)
          (sec_cmlist s)" and
    b: "urls_present cmm ss"
    by (simp_all add: urls_present_def)
  from cm_loop_completes [OF a] Cons.prems(1) st
  obtain st1 where "visit_section E sdir cmm st s = Inr st1"
    by (fastforce simp: visit_section_def Let_def)
  moreover from Cons.IH [OF Cons.prems(1) b] obtain st2 where
    "section_loop E sdir cmm st1 ss = Inr st2" by blast
  ultimately have "section_loop E sdir cmm st (s # ss) = Inr st2" by simp
  then show ?case by (rule exI)
qed

lemma run_completes:
  assumes "\<forall>p. \<not> denied E p" and "urls_present (cm_map_of (state_cm state)) (state_section state)"
  shows "\<exists>m' w'. run E m (CoursePage course_title state) w = Inr (m', w')"
proof -
  from section_loop_completes [OF assms] obtain st' where
    "section_loop E (subject_dir m) (cm_map_of (state_cm state))
       (the_downloader m, w, readme_head course_title (course_url m)) (state_section state) =
     Inr st'"
    by blast
  with assms(1) show ?thesis by (cases st') (simp add: run_def)
qed

text \<open>
  C10. For a module record that is not a resource and has no \<^verbatim>\<open>url\<close> field, listed in a
  section of the course state: whenever \<^verbatim>\<open>run\<close> completes, the index document it has written
  (README.md) contains the link entry for that module with the placeholder target \<^verbatim>\<open>#\<close>;
  and \<^verbatim>\<open>run\<close> does complete when no write is refused and every resource record that the
  walk meets has a \<^verbatim>\<open>url\<close>: the missing field of a module that is not a resource is no
  cause of failure.
\<close>

theorem run_link_without_url:
  assumes "map_of (cm_map_of (state_cm state)) cm_id = Some item"
    and "item_module item \<noteq> ''resource''"
    and "item_url item = None"
    and "s \<in> set (state_section state)"
    and "cm_id \<in> set (sec_cmlist s)"
  shows "(\<forall>m' w'. run E m (CoursePage course_title state) w = Inr (m', w') \<longrightarrow>
            (\<exists>readme_content.
               files w' (readme_path m) = Some (join_lines readme_content) \<and>
               ''* ['' @ get_text E (item_name item) @ ''](#)'' \<in> set readme_content \<and>
               sublist (''* ['' @ get_text E (item_name item) @ ''](#)'')
                 (join_lines readme_content))) \<and>
         ((\<forall>p. \<not> denied E p) \<and>
          urls_present (cm_map_of (state_cm state)) (state_section state) \<longrightarrow>
            (\<exists>m' w'. run E m (CoursePage course_title state) w = Inr (m', w')))"
proof (intro conjI allI impI)
  fix m' w'
  assume "run E m (CoursePage course_title state) w = Inr (m', w')"
  from run_CoursePage_Inr [OF this] obtain d wa r where
    l: "section_loop E (subject_dir m) (cm_map_of (state_cm state))
          (the_downloader m, w, readme_head course_title (course_url m)) (state_section state) =
        Inr (d, wa, r)" and
    w': "w' = wa\<lparr>files := (files wa)(readme_path m \<mapsto> join_lines r)\<rparr>"
    by blast
  from section_loop_link_without_url [OF assms(1,2,3,4,5) l]
  have i: "''* ['' @ get_text E (item_name item) @ ''](#)'' \<in> set r" .
  then have "sublist (''* ['' @ get_text E (item_name item) @ ''](#)'') (join_lines r)"
    by (rule sublist_join_lines)
  with i w' show "\<exists>readme_content.
               files w' (readme_path m) = Some (join_lines readme_content) \<and>
               ''* ['' @ get_text E (item_name item) @ ''](#)'' \<in> set readme_content \<and>
               sublist (''* ['' @ get_text E (item_name item) @ ''](#)'')
                 (join_lines readme_content)"
    by auto
next
  assume "(\<forall>p. \<not> denied E p) \<and>
          urls_present (cm_map_of (state_cm state)) (state_section state)"
  then show "\<exists>m' w'. run E m (CoursePage course_title state) w = Inr (m', w')"
    using run_completes by blast
qed

lemma ex_urls_present: "urls_present (cm_map_of (state_cm ex_state)) (state_section ex_state)"
  by (simp add: urls_present_def cm_map_of_def ex_state_def ex_forum_def)

theorem run_link_without_url_witness:
  "map_of (cm_map_of (state_cm ex_state)) ''9'' = Some ex_forum \<and>
   item_url ex_forum = None \<and>
   (\<exists>m' w' readme_content.
      run ex_env (course_manager_init ex_env ''https://moodle.example/course/view.php?id=1''
                    ''Algebra'' ex_world)
        (CoursePage ''Algebra'' ex_state) ex_world = Inr (m', w') \<and>
      files w' (readme_path (course_manager_init ex_env
                  ''https://moodle.example/course/view.php?id=1'' ''Algebra'' ex_world)) =
        Some (join_lines readme_content) \<and>
      ''* [Course forum](#)'' \<in> set readme_content)"
proof -
  let ?m = "course_manager_init ex_env ''https://moodle.example/course/view.php?id=1''
              ''Algebra'' ex_world"
  have h1: "map_of (cm_map_of (state_cm ex_state)) ''9'' = Some ex_forum"
    by (simp add: cm_map_of_def ex_state_def ex_forum_def)
  have h2: "item_module ex_forum \<noteq> ''resource''"
    by (simp add: ex_forum_def)
  have h3: "item_url ex_forum = None"
    by (simp add: ex_forum_def)
  have h4: "hd (state_section ex_state) \<in> set (state_section ex_state)"
    by (simp add: ex_state_def)
  have h5: "''9'' \<in> set (sec_cmlist (hd (state_section ex_state)))"
    by (simp add: ex_state_def)
  have nd: "\<forall>p. \<not> denied ex_env p" by simp
  note link = run_link_without_url [OF h1 h2 h3 h4 h5, of ex_env ?m "''Algebra''" ex_world]
  from link nd ex_urls_present obtain m' w' where
    r: "run ex_env ?m (CoursePage ''Algebra'' ex_state) ex_world = Inr (m', w')"
    by blast
  with link obtain readme_content where
    "files w' (readme_path ?m) = Some (join_lines readme_content)"
    "''* ['' @ get_text ex_env (item_name ex_forum) @ ''](#)'' \<in> set readme_content"
    by blast
  moreover have "''* ['' @ get_text ex_env (item_name ex_forum) @ ''](#)'' = ''* [Course forum](#)''"
    by (simp add: ex_forum_def)
  ultimately show ?thesis using h1 h3 r by auto
qed

end
